theory Spec2Isabelle
  imports Complex_Main "HOL-Library.Word"
begin

section \<open>Image buffers\<close>

text \<open>
  The program (\<^verbatim>\<open>assets/Alien/smooth_edges.py\<close>) works on Pillow image objects. An image
  is a grid of pixels of a fixed mode; the pipeline fixes the mode at every point
  (\<^verbatim>\<open>convert("RGBA")\<close>, \<^verbatim>\<open>Image.new("L", ...)\<close>, \<^verbatim>\<open>convert("RGB")\<close>), so the pixel type is a
  type parameter: four bytes for RGBA, three for RGB, one for L. The buffer is kept in row
  major order: the pixel at \<open>(x, y)\<close> is entry \<open>y * width + x\<close>.
\<close>

type_synonym byte = "8 word"
type_synonym rgb = "byte \<times> byte \<times> byte"
type_synonym rgba = "byte \<times> byte \<times> byte \<times> byte"

record 'p image =
  width :: nat
  height :: nat
  pixels :: "'p list"

text \<open>Every image object holds exactly \<open>width * height\<close> pixels.\<close>

definition wf_image :: "'p image \<Rightarrow> bool" where
  "wf_image img \<longleftrightarrow> length (pixels img) = width img * height img"

text \<open>\<^verbatim>\<open>img.size\<close>\<close>

definition img_size :: "'p image \<Rightarrow> nat \<times> nat" where
  "img_size img = (width img, height img)"

text \<open>
  Modelled from the spec: \<^verbatim>\<open>Image.new(mode, size, color)\<close> is Pillow's. Section 3: a grid of
  the given dimensions, here filled with one colour.
\<close>

definition Image_new :: "nat \<times> nat \<Rightarrow> 'p \<Rightarrow> 'p image" where
  "Image_new sz color =
     \<lparr>width = fst sz, height = snd sz, pixels = replicate (fst sz * snd sz) color\<rparr>"

text \<open>
  Modelled from the spec: pixel access \<^verbatim>\<open>img.load()[x, y]\<close>, reading and writing, is
  Pillow's. Section 3: the buffer is a 2-D grid addressed by \<open>(x, y)\<close>. Outside the grid
  Pillow raises \<^verbatim>\<open>IndexError\<close>, which is the value \<open>None\<close> here.
\<close>

definition getpixel :: "'p image \<Rightarrow> nat \<times> nat \<Rightarrow> 'p option" where
  "getpixel img xy =
     (case xy of (x, y) \<Rightarrow>
        if x < width img \<and> y < height img
        then Some (pixels img ! (y * width img + x))
        else None)"

definition putpixel :: "'p image \<Rightarrow> nat \<times> nat \<Rightarrow> 'p \<Rightarrow> 'p image option" where
  "putpixel img xy v =
     (case xy of (x, y) \<Rightarrow>
        if x < width img \<and> y < height img
        then Some (img\<lparr>pixels := (pixels img)[y * width img + x := v]\<rparr>)
        else None)"

section \<open>Mask Builder\<close>

definition MAGENTA :: "int \<times> int \<times> int" where
  "MAGENTA = (255, 0, 255)"

text \<open>
  \<^verbatim>\<open>is_background_pixel(px, tolerance)\<close>. The pixel is the tuple that pixel access returns for
  an RGBA image: four Python integers, each the value of one byte. Only entries 0, 1 and 2
  are read. The arithmetic is on unbounded integers.
\<close>

definition is_background_pixel :: "rgba \<Rightarrow> int \<Rightarrow> bool" where
  "is_background_pixel px tolerance =
     (case px of (p0, p1, p2, p3) \<Rightarrow>
        let dr = uint p0 - fst MAGENTA;
            dg = uint p1 - fst (snd MAGENTA);
            db = uint p2 - snd (snd MAGENTA)
        in dr * dr + dg * dg + db * db \<le> tolerance * tolerance)"

text \<open>
  The inner loop of \<^verbatim>\<open>make_mask\<close>, \<^verbatim>\<open>for x in range(w)\<close>, over the columns still to visit in
  row \<open>y\<close>; \<open>mpx\<close> is the mask written so far.
\<close>

fun make_mask_row :: "rgba image \<Rightarrow> int \<Rightarrow> nat \<Rightarrow> nat list \<Rightarrow> byte image \<Rightarrow> byte image option" where
  "make_mask_row img tolerance y [] mpx = Some mpx"
| "make_mask_row img tolerance y (x # xs) mpx =
     (case getpixel img (x, y) of
        None \<Rightarrow> None
      | Some px \<Rightarrow>
          (case (if is_background_pixel px tolerance
                 then putpixel mpx (x, y) 0
                 else putpixel mpx (x, y) 255) of
             None \<Rightarrow> None
           | Some mpx' \<Rightarrow> make_mask_row img tolerance y xs mpx'))"

text \<open>The outer loop, \<^verbatim>\<open>for y in range(h)\<close>, over the rows still to visit.\<close>

fun make_mask_rows :: "rgba image \<Rightarrow> int \<Rightarrow> nat \<Rightarrow> nat list \<Rightarrow> byte image \<Rightarrow> byte image option" where
  "make_mask_rows img tolerance w [] mpx = Some mpx"
| "make_mask_rows img tolerance w (y # ys) mpx =
     (case make_mask_row img tolerance y [0..<w] mpx of
        None \<Rightarrow> None
      | Some mpx' \<Rightarrow> make_mask_rows img tolerance w ys mpx')"

definition make_mask :: "rgba image \<Rightarrow> int \<Rightarrow> byte image option" where
  "make_mask img tolerance =
     (case img_size img of (w, h) \<Rightarrow>
        let mask = Image_new (w, h) 255
        in make_mask_rows img tolerance w [0..<h] mask)"

text \<open>The value the loop body of \<^verbatim>\<open>make_mask\<close> writes for one image pixel.\<close>

definition mask_value :: "int \<Rightarrow> rgba \<Rightarrow> byte" where
  "mask_value tolerance px = (if is_background_pixel px tolerance then 0 else 255)"

section \<open>Imaging library\<close>

text \<open>
  Resampling, blurring and colour parsing are Pillow's (\<^verbatim>\<open>Image.resize\<close> with
  \<^verbatim>\<open>Image.LANCZOS\<close>, \<^verbatim>\<open>Image.filter\<close> with \<^verbatim>\<open>ImageFilter.GaussianBlur\<close>, and the colour
  string parser behind \<^verbatim>\<open>Image.new("RGBA", size, color)\<close>). Their code is not part of the
  repository and the specification treats them as pluggable ("Resizer", "Blurrer"), so
  they are parameters of the model. Resizing and blurring keep the mode of the image they
  are given; an unknown colour string raises \<^verbatim>\<open>ValueError\<close>, the value \<open>None\<close>.
\<close>

record imaging =
  resize_rgb :: "rgb image \<Rightarrow> nat \<times> nat \<Rightarrow> rgb image"
  resize_l :: "byte image \<Rightarrow> nat \<times> nat \<Rightarrow> byte image"
  gaussian_blur :: "real \<Rightarrow> byte image \<Rightarrow> byte image"
  getcolor :: "string \<Rightarrow> rgba option"

text \<open>
  What the pipeline relies on: a resize returns an image of the requested size, and a blur
  returns an image of the size it was given.
\<close>

definition imaging_ok :: "imaging \<Rightarrow> bool" where
  "imaging_ok lib \<longleftrightarrow>
     (\<forall>im sz. img_size (resize_rgb lib im sz) = sz) \<and>
     (\<forall>im sz. img_size (resize_l lib im sz) = sz) \<and>
     (\<forall>r im. img_size (gaussian_blur lib r im) = img_size im)"

text \<open>A blur of radius 0 returns a copy of its input (as Pillow's does).\<close>

definition blur0_copies :: "imaging \<Rightarrow> bool" where
  "blur0_copies lib \<longleftrightarrow> (\<forall>im. gaussian_blur lib 0 im = im)"

text \<open>The library calls a run makes, in order, with their arguments.\<close>

datatype lib_call =
    Resize_RGB "rgb image" "nat \<times> nat"
  | Resize_L "byte image" "nat \<times> nat"
  | Filter_GaussianBlur real "byte image"

fun is_blur_call :: "lib_call \<Rightarrow> bool" where
  "is_blur_call (Filter_GaussianBlur r im) = True"
| "is_blur_call c = False"

section \<open>Smoother\<close>

text \<open>
  \<^verbatim>\<open>smooth_alpha(img, mask, upscale, blur_radius)\<close>, statement by statement (the mask
  argument is \<open>msk\<close> here). The result is the returned pair together with the library
  calls made. \<^verbatim>\<open>upscale\<close> is a Python integer;
  sizes are products and floor quotients of integers, which are not negative where
  \<^verbatim>\<open>upscale > 1\<close>.
\<close>

definition smooth_alpha ::
  "imaging \<Rightarrow> rgb image \<Rightarrow> byte image \<Rightarrow> int \<Rightarrow> real \<Rightarrow> (rgb image \<times> byte image) \<times> lib_call list" where
  "smooth_alpha lib img msk upscale blur_radius =
     (let (img1, mask1, calls1) =
            (if upscale > 1 then
               let new_size = (nat (int (width img) * upscale), nat (int (height img) * upscale))
               in (resize_rgb lib img new_size, resize_l lib msk new_size,
                   [Resize_RGB img new_size, Resize_L msk new_size])
             else (img, msk, []));
          mask2 = gaussian_blur lib blur_radius mask1;
          calls2 = calls1 @ [Filter_GaussianBlur blur_radius mask1]
      in if upscale > 1 then
           let img_size3 = (nat (int (width img1) div upscale), nat (int (height img1) div upscale));
               mask_size3 = (nat (int (width mask2) div upscale), nat (int (height mask2) div upscale))
           in ((resize_rgb lib img1 img_size3, resize_l lib mask2 mask_size3),
               calls2 @ [Resize_RGB img1 img_size3, Resize_L mask2 mask_size3])
         else ((img1, mask2), calls2))"

section \<open>Compositor and the pipeline\<close>

text \<open>
  Modelled from the spec: \<^verbatim>\<open>Image.convert("RGB")\<close> on an RGBA image is Pillow's; the
  program names its result \<^verbatim>\<open>img_no_alpha\<close>. Section 3: an image buffer has three colour
  channels and optionally an opacity channel; the conversion keeps the colour channels and
  drops the opacity channel.
\<close>

definition convert_RGB :: "rgba image \<Rightarrow> rgb image" where
  "convert_RGB img =
     \<lparr>width = width img, height = height img,
      pixels = map (\<lambda>(r, g, b, a). (r, g, b)) (pixels img)\<rparr>"

text \<open>
  Modelled from the spec: \<^verbatim>\<open>Image.putalpha\<close> is Pillow's. Section 4.4, step 1: the opacity
  channel of every pixel is set to the mask value at the same place, by assignment. Pillow
  raises \<^verbatim>\<open>ValueError\<close> when the sizes differ.
\<close>

definition putalpha :: "rgb image \<Rightarrow> byte image \<Rightarrow> rgba image option" where
  "putalpha img alpha =
     (if img_size alpha = img_size img
      then Some \<lparr>width = width img, height = height img,
                 pixels = map2 (\<lambda>(r, g, b) a. (r, g, b, a)) (pixels img) (pixels alpha)\<rparr>
      else None)"

text \<open>
  Modelled from the spec: \<^verbatim>\<open>Image.alpha_composite\<close> is Pillow's. Section 4.4, step 2:
  \<open>out = src\<cdot>srcA + dst\<cdot>(1 - srcA)\<close> per channel with the output fully opaque, where
  \<open>srcA\<close> is the source opacity as a fraction of 255. The quotient is rounded to the nearest
  integer; at opacity 0 and 255 it is exact. Pillow raises \<^verbatim>\<open>ValueError\<close> when the sizes
  differ.
\<close>

definition over_channel :: "byte \<Rightarrow> byte \<Rightarrow> byte \<Rightarrow> byte" where
  "over_channel s d a = word_of_int ((uint s * uint a + uint d * (255 - uint a) + 127) div 255)"

definition over_pixel :: "rgba \<Rightarrow> rgba \<Rightarrow> rgba" where
  "over_pixel dst src =
     (case dst of (dr, dg, db, da) \<Rightarrow>
      case src of (sr, sg, sb, sa) \<Rightarrow>
        (over_channel sr dr sa, over_channel sg dg sa, over_channel sb db sa, 255))"

definition alpha_composite :: "rgba image \<Rightarrow> rgba image \<Rightarrow> rgba image option" where
  "alpha_composite im1 im2 =
     (if img_size im1 = img_size im2
      then Some \<lparr>width = width im1, height = height im1,
                 pixels = map2 over_pixel (pixels im1) (pixels im2)\<rparr>
      else None)"

text \<open>The parsed command line: \<^verbatim>\<open>--tolerance\<close>, \<^verbatim>\<open>--upscale\<close>, \<^verbatim>\<open>--blur\<close>, \<^verbatim>\<open>--bg\<close>.\<close>

record args =
  tolerance :: int
  upscale :: int
  blur :: real
  bg :: "string option"

text \<open>
  \<^verbatim>\<open>main\<close>, from the decoded RGBA image (\<^verbatim>\<open>Image.open(args.input).convert("RGBA")\<close>) to the
  buffer handed to \<^verbatim>\<open>save\<close>. \<^verbatim>\<open>if args.bg:\<close> is false for an absent and for an empty
  string.
\<close>

definition main :: "imaging \<Rightarrow> rgba image \<Rightarrow> args \<Rightarrow> rgba image option" where
  "main lib img a =
     (case make_mask img (tolerance a) of
        None \<Rightarrow> None
      | Some msk \<Rightarrow>
          let img_no_alpha = convert_RGB img;
              (img_smooth, mask_smooth) = fst (smooth_alpha lib img_no_alpha msk (upscale a) (blur a))
          in (case putalpha img_smooth mask_smooth of
                None \<Rightarrow> None
              | Some img_smooth' \<Rightarrow>
                  (case bg a of
                     None \<Rightarrow> Some img_smooth'
                   | Some s \<Rightarrow>
                       if s = [] then Some img_smooth'
                       else (case getcolor lib s of
                               None \<Rightarrow> None
                             | Some color \<Rightarrow>
                                 alpha_composite (Image_new (img_size img_smooth') color) img_smooth'))))"

text \<open>The colour channels of an RGBA pixel.\<close>

definition color_of :: "rgba \<Rightarrow> rgb" where
  "color_of px = (case px of (r, g, b, a) \<Rightarrow> (r, g, b))"

text \<open>An RGBA pixel with its opacity replaced, as \<^verbatim>\<open>putalpha\<close> leaves it.\<close>

definition with_alpha :: "rgba \<Rightarrow> byte \<Rightarrow> rgba" where
  "with_alpha px v = (case px of (r, g, b, a) \<Rightarrow> (r, g, b, v))"

section \<open>A stand-in library and sample images\<close>

text \<open>
  A small imaging library to run the model on: nearest-neighbour resizing, a 1-2-1 blur
  along the buffer that copies its input at radius 0, and a two-entry colour table. It is
  used only for the closed instances of the theorems below.
\<close>

definition resize_nearest :: "'p \<Rightarrow> 'p image \<Rightarrow> nat \<times> nat \<Rightarrow> 'p image" where
  "resize_nearest d im sz =
     (case sz of (w, h) \<Rightarrow>
        \<lparr>width = w, height = h,
         pixels = map (\<lambda>i. let k = ((i div w) * height im div h) * width im + (i mod w) * width im div w
                           in if k < length (pixels im) then pixels im ! k else d)
                      [0..<w * h]\<rparr>)"

definition blur_121 :: "real \<Rightarrow> byte image \<Rightarrow> byte image" where
  "blur_121 r im =
     (if r = 0 then im
      else im\<lparr>pixels :=
             map (\<lambda>i. word_of_int ((uint (pixels im ! (i - 1)) + 2 * uint (pixels im ! i)
                          + uint (pixels im ! min (i + 1) (length (pixels im) - 1))) div 4))
                 [0..<length (pixels im)]\<rparr>)"

definition demo_imaging :: imaging where
  "demo_imaging =
     \<lparr>resize_rgb = resize_nearest (0, 0, 0),
      resize_l = resize_nearest 0,
      gaussian_blur = blur_121,
      getcolor = map_of [(''#ffffff'', (255, 255, 255, 255)), (''#000000'', (0, 0, 0, 255))]\<rparr>"

definition demo_rgb :: "rgb image" where
  "demo_rgb = \<lparr>width = 2, height = 2,
       pixels = [(255, 0, 255), (250, 10, 240), (255, 0, 0), (0, 0, 0)]\<rparr>"

definition demo_mask :: "byte image" where
  "demo_mask = \<lparr>width = 2, height = 2, pixels = [0, 0, 255, 255]\<rparr>"

definition demo_img :: "rgba image" where
  "demo_img = \<lparr>width = 2, height = 2,
       pixels = [(255, 0, 255, 255), (250, 10, 240, 7), (255, 0, 0, 255), (0, 0, 0, 0)]\<rparr>"

text \<open>The same colours as \<open>demo_img\<close> with other opacities.\<close>

definition demo_img' :: "rgba image" where
  "demo_img' = \<lparr>width = 2, height = 2,
       pixels = [(255, 0, 255, 0), (250, 10, 240, 255), (255, 0, 0, 128), (0, 0, 0, 31)]\<rparr>"

text \<open>A 4 by 4 image, left half magenta and right half pure red.\<close>

definition half_img :: "rgba image" where
  "half_img = \<lparr>width = 4, height = 4,
       pixels = [(255, 0, 255, 255), (255, 0, 255, 255), (255, 0, 0, 255), (255, 0, 0, 255),
                 (255, 0, 255, 255), (255, 0, 255, 255), (255, 0, 0, 255), (255, 0, 0, 255),
                 (255, 0, 255, 255), (255, 0, 255, 255), (255, 0, 0, 255), (255, 0, 0, 255),
                 (255, 0, 255, 255), (255, 0, 255, 255), (255, 0, 0, 255), (255, 0, 0, 255)]\<rparr>"

section \<open>The loops of the Mask Builder\<close>

text \<open>
  The two nested loops visit every cell of the grid once and never leave it, so on a
  well-formed image \<^verbatim>\<open>make_mask\<close> always returns, and the mask it returns is the image
  with \<open>mask_value\<close> applied to every pixel.
\<close>

lemma cell_in_buffer: "x < w \<Longrightarrow> y < h \<Longrightarrow> y * w + x < w * (h::nat)"
proof -
  assume a: "x < w" "y < h"
  have "y * w + x < y * w + w" using a by simp
  also have "\<dots> = Suc y * w" by simp
  also have "\<dots> \<le> h * w" using a by (intro mult_le_mono1) simp
  finally show ?thesis by (simp add: mult.commute)
qed

lemma make_mask_row_spec:
  assumes "wf_image img" "y < height img" "\<forall>x\<in>set xs. x < width img"
    and "width mpx = width img" "height mpx = height img" "wf_image mpx"
  shows "\<exists>m. make_mask_row img tol y xs mpx = Some m \<and> width m = width img \<and> height m = height img
           \<and> wf_image m
           \<and> (\<forall>i < width img * height img. pixels m ! i =
                 (if \<exists>x\<in>set xs. i = y * width img + x then mask_value tol (pixels img ! i)
                  else pixels mpx ! i))"
  using assms
proof (induction xs arbitrary: mpx)
  case Nil
  then show ?case by simp
next
  case (Cons x xs)
  let ?w = "width img"
  let ?k = "y * ?w + x"
  let ?m1 = "mpx\<lparr>pixels := (pixels mpx)[?k := mask_value tol (pixels img ! ?k)]\<rparr>"
  have xw: "x < ?w" using Cons.prems by simp
  have k: "?k < ?w * height img" using xw Cons.prems(2) by (rule cell_in_buffer)
  have len: "length (pixels mpx) = ?w * height img"
    using Cons.prems by (simp add: wf_image_def)
  have step: "make_mask_row img tol y (x # xs) mpx = make_mask_row img tol y xs ?m1"
    using xw Cons.prems by (simp add: getpixel_def putpixel_def mask_value_def)
  have wf1: "wf_image ?m1" using Cons.prems by (simp add: wf_image_def)
  from Cons.IH[of ?m1] Cons.prems wf1
  obtain m where m: "make_mask_row img tol y xs ?m1 = Some m" "width m = ?w" "height m = height img"
     "wf_image m"
     "\<forall>i < ?w * height img. pixels m ! i =
                 (if \<exists>x\<in>set xs. i = y * ?w + x then mask_value tol (pixels img ! i)
                  else pixels ?m1 ! i)"
    by auto
  have "\<forall>i < ?w * height img. pixels m ! i =
                 (if \<exists>x'\<in>set (x # xs). i = y * ?w + x' then mask_value tol (pixels img ! i)
                  else pixels mpx ! i)"
  proof (intro allI impI)
    fix i assume i: "i < ?w * height img"
    show "pixels m ! i = (if \<exists>x'\<in>set (x # xs). i = y * ?w + x' then mask_value tol (pixels img ! i)
                  else pixels mpx ! i)"
      using m(5) i len by (auto simp: nth_list_update)
  qed
  with m step show ?case by simp
qed

lemma make_mask_rows_spec:
  assumes "wf_image img" "\<forall>y\<in>set ys. y < height img"
    and "width mpx = width img" "height mpx = height img" "wf_image mpx"
  shows "\<exists>m. make_mask_rows img tol (width img) ys mpx = Some m \<and> width m = width img \<and> height m = height img
           \<and> wf_image m
           \<and> (\<forall>i < width img * height img. pixels m ! i =
                 (if \<exists>y\<in>set ys. \<exists>x < width img. i = y * width img + x then mask_value tol (pixels img ! i)
                  else pixels mpx ! i))"
  using assms
proof (induction ys arbitrary: mpx)
  case Nil
  then show ?case by simp
next
  case (Cons y ys)
  let ?w = "width img"
  have y: "y < height img" using Cons.prems by simp
  from make_mask_row_spec[OF Cons.prems(1) y _ Cons.prems(3,4,5), of "[0..<?w]" tol]
  obtain m1 where m1: "make_mask_row img tol y [0..<?w] mpx = Some m1" "width m1 = ?w"
     "height m1 = height img" "wf_image m1"
     "\<forall>i < ?w * height img. pixels m1 ! i =
                 (if \<exists>x\<in>set [0..<?w]. i = y * ?w + x then mask_value tol (pixels img ! i)
                  else pixels mpx ! i)"
    by auto
  from Cons.IH[of m1] Cons.prems m1
  obtain m where m: "make_mask_rows img tol ?w ys m1 = Some m" "width m = ?w" "height m = height img"
     "wf_image m"
     "\<forall>i < ?w * height img. pixels m ! i =
                 (if \<exists>y\<in>set ys. \<exists>x < ?w. i = y * ?w + x then mask_value tol (pixels img ! i)
                  else pixels m1 ! i)"
    by auto
  have "\<forall>i < ?w * height img. pixels m ! i =
                 (if \<exists>y'\<in>set (y # ys). \<exists>x < ?w. i = y' * ?w + x then mask_value tol (pixels img ! i)
                  else pixels mpx ! i)"
  proof (intro allI impI)
    fix i assume i: "i < ?w * height img"
    show "pixels m ! i = (if \<exists>y'\<in>set (y # ys). \<exists>x < ?w. i = y' * ?w + x then mask_value tol (pixels img ! i)
                  else pixels mpx ! i)"
      using m(5) m1(5) i by auto
  qed
  with m m1 show ?case by simp
qed

lemma make_mask_closed_form:
  assumes "wf_image img"
  shows "make_mask img tol =
     Some \<lparr>width = width img, height = height img, pixels = map (mask_value tol) (pixels img)\<rparr>"
proof -
  let ?w = "width img" and ?h = "height img"
  let ?m0 = "Image_new (?w, ?h) (255::byte)"
  have m0: "width ?m0 = ?w" "height ?m0 = ?h" "wf_image ?m0"
    by (simp_all add: Image_new_def wf_image_def)
  from make_mask_rows_spec[OF assms _ m0, of "[0..<?h]" tol]
  obtain m where m: "make_mask_rows img tol ?w [0..<?h] ?m0 = Some m" "width m = ?w" "height m = ?h"
     "wf_image m"
     "\<forall>i < ?w * ?h. pixels m ! i =
                 (if \<exists>y\<in>set [0..<?h]. \<exists>x < ?w. i = y * ?w + x then mask_value tol (pixels img ! i)
                  else pixels ?m0 ! i)"
    by auto
  have len: "length (pixels m) = ?w * ?h" using m by (simp add: wf_image_def)
  have leni: "length (pixels img) = ?w * ?h" using assms by (simp add: wf_image_def)
  have "pixels m = map (mask_value tol) (pixels img)"
  proof (rule nth_equalityI)
    show "length (pixels m) = length (map (mask_value tol) (pixels img))"
      using len leni by simp
  next
    fix i assume "i < length (pixels m)"
    then have i: "i < ?w * ?h" using len by simp
    then have w0: "0 < ?w" by (cases "?w = 0") simp_all
    have d: "i div ?w < ?h" using i w0 by (simp add: less_mult_imp_div_less mult.commute)
    have r: "i mod ?w < ?w" using w0 by simp
    have e: "i = (i div ?w) * ?w + i mod ?w" by simp
    have "\<exists>y\<in>set [0..<?h]. \<exists>x < ?w. i = y * ?w + x"
      using d r e by (metis atLeastLessThan_iff set_upt zero_le)
    then have "pixels m ! i = mask_value tol (pixels img ! i)"
      using m(5) i by simp
    then show "pixels m ! i = map (mask_value tol) (pixels img) ! i"
      using i leni by simp
  qed
  then have "m = \<lparr>width = ?w, height = ?h, pixels = map (mask_value tol) (pixels img)\<rparr>"
    using m(2,3) by simp
  then show ?thesis using m(1) by (simp add: make_mask_def img_size_def)
qed

section \<open>Mask Builder: classification\<close>

lemma getpixel_inside:
  "x < width img \<Longrightarrow> y < height img \<Longrightarrow> getpixel img (x, y) = Some (pixels img ! (y * width img + x))"
  by (simp add: getpixel_def)

lemma is_background_pixel_iff:
  "is_background_pixel (r, g, b, a) tol \<longleftrightarrow>
     (uint r - 255)\<^sup>2 + (uint g - 0)\<^sup>2 + (uint b - 255)\<^sup>2 \<le> tol\<^sup>2"
  by (simp add: is_background_pixel_def MAGENTA_def power2_eq_square Let_def)

lemma make_mask_getpixel:
  assumes "wf_image img" "x < width img" "y < height img"
  shows "\<exists>m px. make_mask img tol = Some m \<and> img_size m = img_size img \<and> wf_image m
           \<and> getpixel img (x, y) = Some px
           \<and> getpixel m (x, y) = Some (mask_value tol px)"
proof -
  let ?m = "\<lparr>width = width img, height = height img, pixels = map (mask_value tol) (pixels img)\<rparr>"
  have k: "y * width img + x < length (pixels img)"
    using assms cell_in_buffer[of x "width img" y "height img"] by (simp add: wf_image_def)
  have "getpixel ?m (x, y) = Some (mask_value tol (pixels img ! (y * width img + x)))"
    using assms k by (simp add: getpixel_def)
  moreover have "wf_image ?m" "img_size ?m = img_size img"
    using assms by (simp_all add: wf_image_def img_size_def)
  ultimately show ?thesis
    using make_mask_closed_form[OF assms(1), of tol] getpixel_inside[OF assms(2,3)] by simp
qed

lemma wf_demo_img: "wf_image demo_img"
  by (simp add: wf_image_def demo_img_def)

text \<open>
  Claim C1. For every well-formed image and every non-negative integer tolerance,
  \<^verbatim>\<open>make_mask\<close> returns a mask whose pixel at each coordinate \<open>(x, y)\<close> of the grid is 0
  exactly when the squared RGB distance \<open>(r - 255)\<^sup>2 + (g - 0)\<^sup>2 + (b - 255)\<^sup>2\<close> of the image
  pixel there to the chroma-key colour is at most the squared tolerance, and 255 otherwise.
\<close>

theorem mask_builder_classifies:
  assumes "wf_image img" and "0 \<le> tol"
  shows "\<exists>m. make_mask img tol = Some m \<and>
           (\<forall>x y. x < width img \<and> y < height img \<longrightarrow>
              (\<exists>r g b a. getpixel img (x, y) = Some (r, g, b, a) \<and>
                 getpixel m (x, y) =
                   Some (if (uint r - 255)\<^sup>2 + (uint g - 0)\<^sup>2 + (uint b - 255)\<^sup>2 \<le> tol\<^sup>2
                         then 0 else 255)))"
proof -
  obtain m where m: "make_mask img tol = Some m"
    using make_mask_closed_form[OF assms(1)] by simp
  have "\<exists>r g b a. getpixel img (x, y) = Some (r, g, b, a) \<and>
                 getpixel m (x, y) =
                   Some (if (uint r - 255)\<^sup>2 + (uint g - 0)\<^sup>2 + (uint b - 255)\<^sup>2 \<le> tol\<^sup>2
                         then 0 else 255)"
    if xy: "x < width img" "y < height img" for x y
  proof -
    obtain px where px: "getpixel img (x, y) = Some px" "getpixel m (x, y) = Some (mask_value tol px)"
      using make_mask_getpixel[OF assms(1) xy, of tol] m by auto
    obtain r g b a where "px = (r, g, b, a)" by (cases px) auto
    with px show ?thesis
      by (simp add: mask_value_def is_background_pixel_iff)
  qed
  with m show ?thesis by blast
qed

theorem mask_builder_classifies_witness:
  "wf_image demo_img \<and> (0::int) \<le> 80 \<and>
   (\<exists>m. make_mask demo_img 80 = Some m \<and>
           (\<forall>x y. x < width demo_img \<and> y < height demo_img \<longrightarrow>
              (\<exists>r g b a. getpixel demo_img (x, y) = Some (r, g, b, a) \<and>
                 getpixel m (x, y) =
                   Some (if (uint r - 255)\<^sup>2 + (uint g - 0)\<^sup>2 + (uint b - 255)\<^sup>2 \<le> 80\<^sup>2
                         then 0 else 255))))"
proof -
  have h: "(0::int) \<le> 80" by simp
  show ?thesis using wf_demo_img h mask_builder_classifies[OF wf_demo_img h] by simp
qed

subsection \<open>The ends of the tolerance range\<close>

lemma uint_byte_bounds: "0 \<le> uint (v::byte) \<and> uint v \<le> 255"
  using uint_lt2p[of v] by simp

lemma square_le_255: "0 \<le> (d::int) \<Longrightarrow> d \<le> 255 \<Longrightarrow> d * d \<le> 65025"
  using mult_mono[of d 255 d 255] by simp

lemma square_le_255': "-255 \<le> (d::int) \<Longrightarrow> d \<le> 0 \<Longrightarrow> d * d \<le> 65025"
  using square_le_255[of "-d"] by simp

lemma distance_bound:
  "(uint (r::byte) - 255) * (uint r - 255) + uint (g::byte) * uint g + (uint (b::byte) - 255) * (uint b - 255) \<le> 195075"
proof -
  have "(uint r - 255) * (uint r - 255) \<le> 65025"
    using uint_byte_bounds[of r] by (intro square_le_255') simp_all
  moreover have "uint g * uint g \<le> 65025"
    using uint_byte_bounds[of g] by (intro square_le_255) simp_all
  moreover have "(uint b - 255) * (uint b - 255) \<le> 65025"
    using uint_byte_bounds[of b] by (intro square_le_255') simp_all
  ultimately show ?thesis by linarith
qed

lemma is_background_pixel_442:
  assumes "442 \<le> tol"
  shows "is_background_pixel px tol"
proof -
  obtain r g b a where px: "px = (r, g, b, a)" by (cases px) auto
  have "(442::int) * 442 \<le> tol * tol"
    using assms by (intro mult_mono) simp_all
  then have "195075 \<le> tol * tol" by simp
  with distance_bound[of r g b] show ?thesis
    by (simp add: px is_background_pixel_def MAGENTA_def Let_def)
qed

lemma three_squares_le_zero:
  "(a::int) * a + b * b + c * c \<le> 0 \<longleftrightarrow> a = 0 \<and> b = 0 \<and> c = 0"
proof
  assume le: "a * a + b * b + c * c \<le> 0"
  have "0 \<le> a * a" "0 \<le> b * b" "0 \<le> c * c" by simp_all
  with le have "a * a = 0" "b * b = 0" "c * c = 0" by linarith+
  then show "a = 0 \<and> b = 0 \<and> c = 0" by simp
next
  assume "a = 0 \<and> b = 0 \<and> c = 0"
  then show "a * a + b * b + c * c \<le> 0" by simp
qed

lemma is_background_pixel_0:
  "is_background_pixel (r, g, b, a) 0 \<longleftrightarrow> (r, g, b) = (255, 0, 255)"
proof -
  have "is_background_pixel (r, g, b, a) 0 \<longleftrightarrow> uint r - 255 = 0 \<and> uint g = 0 \<and> uint b - 255 = 0"
    using three_squares_le_zero[of "uint r - 255" "uint g" "uint b - 255"]
    by (simp add: is_background_pixel_def MAGENTA_def Let_def)
  also have "\<dots> \<longleftrightarrow> uint r = uint (255::byte) \<and> uint g = uint (0::byte) \<and> uint b = uint (255::byte)"
    by simp
  also have "\<dots> \<longleftrightarrow> r = 255 \<and> g = 0 \<and> b = 255"
    by (simp only: word_uint_eq_iff[symmetric])
  finally show ?thesis by simp
qed

text \<open>
  Claim C3. With tolerance 0 the background pixels are exactly those whose colour is
  (255, 0, 255), for the classifier and for the mask \<^verbatim>\<open>make_mask\<close> builds; with any tolerance
  of 442 or more every pixel is background, so the whole mask is 0.
\<close>

theorem mask_builder_tolerance_edges:
  assumes "wf_image img"
  shows "(\<forall>r g b a. is_background_pixel (r, g, b, a) 0 \<longleftrightarrow> (r, g, b) = (255, 0, 255)) \<and>
         (\<forall>tol px. 442 \<le> tol \<longrightarrow> is_background_pixel px tol) \<and>
         (\<exists>m. make_mask img 0 = Some m \<and>
            (\<forall>x y. x < width img \<and> y < height img \<longrightarrow>
               (\<exists>r g b a. getpixel img (x, y) = Some (r, g, b, a) \<and>
                  getpixel m (x, y) = Some (if (r, g, b) = (255, 0, 255) then 0 else 255)))) \<and>
         (\<forall>tol. 442 \<le> tol \<longrightarrow>
            (\<exists>m. make_mask img tol = Some m \<and>
               (\<forall>x y. x < width img \<and> y < height img \<longrightarrow> getpixel m (x, y) = Some 0)))"
proof (intro conjI allI impI)
  fix r g b a :: byte
  show "is_background_pixel (r, g, b, a) 0 \<longleftrightarrow> (r, g, b) = (255, 0, 255)"
    by (rule is_background_pixel_0)
next
  fix tol :: int and px :: rgba
  assume "442 \<le> tol"
  then show "is_background_pixel px tol" by (rule is_background_pixel_442)
next
  obtain m where m: "make_mask img 0 = Some m"
    using make_mask_closed_form[OF assms] by simp
  have "\<exists>r g b a. getpixel img (x, y) = Some (r, g, b, a) \<and>
                  getpixel m (x, y) = Some (if (r, g, b) = (255, 0, 255) then 0 else 255)"
    if xy: "x < width img" "y < height img" for x y
  proof -
    obtain p where p: "getpixel img (x, y) = Some p" "getpixel m (x, y) = Some (mask_value 0 p)"
      using make_mask_getpixel[OF assms xy, of 0] m by auto
    obtain r g b a where "p = (r, g, b, a)" by (cases p) auto
    with p show ?thesis
      using is_background_pixel_0[of r g b a] by (simp add: mask_value_def)
  qed
  with m show "\<exists>m. make_mask img 0 = Some m \<and>
            (\<forall>x y. x < width img \<and> y < height img \<longrightarrow>
               (\<exists>r g b a. getpixel img (x, y) = Some (r, g, b, a) \<and>
                  getpixel m (x, y) = Some (if (r, g, b) = (255, 0, 255) then 0 else 255)))"
    by blast
next
  fix tol :: int
  assume tol: "442 \<le> tol"
  obtain m where m: "make_mask img tol = Some m"
    using make_mask_closed_form[OF assms] by simp
  have "getpixel m (x, y) = Some 0" if xy: "x < width img" "y < height img" for x y
  proof -
    obtain p where p: "getpixel m (x, y) = Some (mask_value tol p)"
      using make_mask_getpixel[OF assms xy, of tol] m by auto
    then show ?thesis
      using is_background_pixel_442[OF tol, of p] by (simp add: mask_value_def)
  qed
  with m show "\<exists>m. make_mask img tol = Some m \<and>
               (\<forall>x y. x < width img \<and> y < height img \<longrightarrow> getpixel m (x, y) = Some 0)"
    by blast
qed

theorem mask_builder_tolerance_edges_witness:
  "wf_image demo_img \<and>
   is_background_pixel (255, 0, 255, 7) 0 \<and>
   \<not> is_background_pixel (255, 1, 255, 7) 0 \<and>
   is_background_pixel (0, 255, 0, 255) 442 \<and>
   (\<exists>m. make_mask demo_img 0 = Some m \<and>
      (\<forall>x y. x < width demo_img \<and> y < height demo_img \<longrightarrow>
         (\<exists>r g b a. getpixel demo_img (x, y) = Some (r, g, b, a) \<and>
            getpixel m (x, y) = Some (if (r, g, b) = (255, 0, 255) then 0 else 255)))) \<and>
   (\<exists>m. make_mask demo_img 442 = Some m \<and>
      (\<forall>x y. x < width demo_img \<and> y < height demo_img \<longrightarrow> getpixel m (x, y) = Some 0))"
proof -
  note t = mask_builder_tolerance_edges[OF wf_demo_img]
  from t have a: "is_background_pixel (255, 0, 255, 7) 0" by simp
  from t have b: "\<not> is_background_pixel (255, 1, 255, 7) 0" by simp
  from t have c: "is_background_pixel (0, 255, 0, 255) 442" by simp
  from t have d: "\<exists>m. make_mask demo_img 442 = Some m \<and>
      (\<forall>x y. x < width demo_img \<and> y < height demo_img \<longrightarrow> getpixel m (x, y) = Some 0)"
    by simp
  from t a b c d wf_demo_img show ?thesis by blast
qed

subsection \<open>The sign of the tolerance\<close>

lemma make_mask_row_cong:
  assumes "\<And>px. is_background_pixel px t = is_background_pixel px t'"
  shows "make_mask_row img t y xs mpx = make_mask_row img t' y xs mpx"
  by (induction xs arbitrary: mpx) (simp_all add: assms split: option.splits)

lemma make_mask_rows_cong:
  assumes "\<And>px. is_background_pixel px t = is_background_pixel px t'"
  shows "make_mask_rows img t w ys mpx = make_mask_rows img t' w ys mpx"
  by (induction ys arbitrary: mpx) (simp_all add: make_mask_row_cong[OF assms] split: option.splits)

lemma make_mask_cong:
  assumes "\<And>px. is_background_pixel px t = is_background_pixel px t'"
  shows "make_mask img t = make_mask img t'"
  by (simp add: make_mask_def make_mask_rows_cong[OF assms])

text \<open>
  Claim C8. Only the square of the tolerance is used: the classification of every pixel,
  and so the mask of every image, is the same for a tolerance, its negation and its
  absolute value. A negative tolerance therefore does classify pixels as background: at
  tolerance \<open>- t\<close> a pixel is background exactly when its squared RGB distance to the
  chroma-key colour is at most \<open>\<bar>t\<bar>\<^sup>2\<close>, so the chroma-key colour itself always is, and
  at tolerance -80 the pixel (175, 0, 255) is background, pure red is not, and the mask of
  the sample image is 0, 0, 255, 255.
\<close>

theorem tolerance_sign_ignored:
  "is_background_pixel px (- t) = is_background_pixel px t \<and>
   is_background_pixel px t = is_background_pixel px \<bar>t\<bar> \<and>
   make_mask img (- t) = make_mask img t \<and>
   make_mask img t = make_mask img \<bar>t\<bar> \<and>
   (is_background_pixel (r, g, b, a) (- t) \<longleftrightarrow>
      (uint r - 255)\<^sup>2 + (uint g - 0)\<^sup>2 + (uint b - 255)\<^sup>2 \<le> \<bar>t\<bar>\<^sup>2) \<and>
   is_background_pixel (255, 0, 255, a) (- t) \<and>
   is_background_pixel (175, 0, 255, 255) (- 80) \<and>
   \<not> is_background_pixel (255, 0, 0, 255) (- 80) \<and>
   make_mask demo_img (- 80) = Some \<lparr>width = 2, height = 2, pixels = [0, 0, 255, 255]\<rparr>"
proof -
  have neg: "is_background_pixel p (- t) = is_background_pixel p t" for p
    by (simp add: is_background_pixel_def)
  have ab: "is_background_pixel p t = is_background_pixel p \<bar>t\<bar>" for p
    by (simp add: is_background_pixel_def)
  have dist: "is_background_pixel (r, g, b, a) (- t) \<longleftrightarrow>
      (uint r - 255)\<^sup>2 + (uint g - 0)\<^sup>2 + (uint b - 255)\<^sup>2 \<le> \<bar>t\<bar>\<^sup>2"
    by (simp add: is_background_pixel_iff)
  have key: "is_background_pixel (255, 0, 255, a) (- t)"
    by (simp add: is_background_pixel_def MAGENTA_def)
  have near: "is_background_pixel (175, 0, 255, 255) (- 80)"
    by (simp add: is_background_pixel_def MAGENTA_def)
  have far: "\<not> is_background_pixel (255, 0, 0, 255) (- 80)"
    by (simp add: is_background_pixel_def MAGENTA_def)
  have "make_mask demo_img (- 80) =
      Some \<lparr>width = width demo_img, height = height demo_img,
            pixels = map (mask_value (- 80)) (pixels demo_img)\<rparr>"
    by (rule make_mask_closed_form[OF wf_demo_img])
  also have "\<dots> = Some \<lparr>width = 2, height = 2, pixels = [0, 0, 255, 255]\<rparr>"
    by (simp add: demo_img_def mask_value_def is_background_pixel_def MAGENTA_def)
  finally have run:
    "make_mask demo_img (- 80) = Some \<lparr>width = 2, height = 2, pixels = [0, 0, 255, 255]\<rparr>" .
  show ?thesis
    using neg ab make_mask_cong[of "- t" t img] make_mask_cong[of t "\<bar>t\<bar>" img]
      dist key near far run
    by simp
qed

subsection \<open>Monotonicity in the tolerance\<close>

lemma is_background_pixel_mono:
  assumes "0 \<le> t" "t \<le> t'" "is_background_pixel px t"
  shows "is_background_pixel px t'"
proof -
  have "t * t \<le> t' * t'" using assms(1,2) by (intro mult_mono) simp_all
  with assms(3) show ?thesis
    by (auto simp: is_background_pixel_def Let_def split: prod.splits)
qed

text \<open>
  Claim C9. For tolerances \<open>0 \<le> t \<le> t'\<close>, a pixel that is background at \<open>t\<close> is background
  at \<open>t'\<close>; in the masks of one image, a 0 at tolerance \<open>t\<close> is a 0 at \<open>t'\<close>, and a 255 at
  \<open>t'\<close> is a 255 at \<open>t\<close>.
\<close>

theorem mask_builder_monotone:
  assumes "0 \<le> t" and "t \<le> t'"
  shows "(is_background_pixel px t \<longrightarrow> is_background_pixel px t') \<and>
         (wf_image img \<longrightarrow>
            (\<exists>m m'. make_mask img t = Some m \<and> make_mask img t' = Some m' \<and>
               (\<forall>x y. x < width img \<and> y < height img \<longrightarrow>
                  (getpixel m (x, y) = Some 0 \<longrightarrow> getpixel m' (x, y) = Some 0) \<and>
                  (getpixel m' (x, y) = Some 255 \<longrightarrow> getpixel m (x, y) = Some 255))))"
proof (intro conjI impI)
  show "is_background_pixel px t'" if "is_background_pixel px t"
    using assms that by (rule is_background_pixel_mono)
next
  assume wf: "wf_image img"
  obtain m where m: "make_mask img t = Some m"
    using make_mask_closed_form[OF wf] by simp
  obtain m' where m': "make_mask img t' = Some m'"
    using make_mask_closed_form[OF wf] by simp
  have "(getpixel m (x, y) = Some 0 \<longrightarrow> getpixel m' (x, y) = Some 0) \<and>
        (getpixel m' (x, y) = Some 255 \<longrightarrow> getpixel m (x, y) = Some 255)"
    if xy: "x < width img" "y < height img" for x y
  proof -
    obtain p where p: "getpixel img (x, y) = Some p" "getpixel m (x, y) = Some (mask_value t p)"
      using make_mask_getpixel[OF wf xy, of t] m by auto
    obtain p' where p': "getpixel img (x, y) = Some p'" "getpixel m' (x, y) = Some (mask_value t' p')"
      using make_mask_getpixel[OF wf xy, of t'] m' by auto
    have "p' = p" using p p' by simp
    then show ?thesis
      using p p' is_background_pixel_mono[OF assms, of p]
      by (auto simp: mask_value_def split: if_splits)
  qed
  with m m' show "\<exists>m m'. make_mask img t = Some m \<and> make_mask img t' = Some m' \<and>
               (\<forall>x y. x < width img \<and> y < height img \<longrightarrow>
                  (getpixel m (x, y) = Some 0 \<longrightarrow> getpixel m' (x, y) = Some 0) \<and>
                  (getpixel m' (x, y) = Some 255 \<longrightarrow> getpixel m (x, y) = Some 255))"
    by blast
qed

theorem mask_builder_monotone_witness:
  "(0::int) \<le> 10 \<and> (10::int) \<le> 80 \<and> wf_image demo_img \<and>
   is_background_pixel (255, 0, 250, 7) 10 \<and> is_background_pixel (255, 0, 250, 7) 80 \<and>
   (\<exists>m m'. make_mask demo_img 10 = Some m \<and> make_mask demo_img 80 = Some m' \<and>
      (\<forall>x y. x < width demo_img \<and> y < height demo_img \<longrightarrow>
         (getpixel m (x, y) = Some 0 \<longrightarrow> getpixel m' (x, y) = Some 0) \<and>
         (getpixel m' (x, y) = Some 255 \<longrightarrow> getpixel m (x, y) = Some 255)))"
proof -
  have a: "(0::int) \<le> 10" and b: "(10::int) \<le> 80" by simp_all
  have p: "is_background_pixel (255, 0, 250, 7) 10"
    by (simp add: is_background_pixel_def MAGENTA_def)
  show ?thesis
    using a b p wf_demo_img mask_builder_monotone[OF a b, of "(255, 0, 250, 7)" demo_img] by blast
qed


section \<open>Smoother: sizes and library calls\<close>

lemma imaging_ok_demo: "imaging_ok demo_imaging"
  by (simp add: imaging_ok_def demo_imaging_def resize_nearest_def blur_121_def img_size_def
      split: prod.splits)

lemma blur0_copies_demo: "blur0_copies demo_imaging"
  by (simp add: blur0_copies_def demo_imaging_def blur_121_def)

lemma smooth_alpha_native:
  "\<not> 1 < u \<Longrightarrow> smooth_alpha lib img msk u r =
     ((img, gaussian_blur lib r msk), [Filter_GaussianBlur r msk])"
  by (simp add: smooth_alpha_def)

lemma smooth_alpha_upscaled:
  assumes "1 < u"
  shows "smooth_alpha lib img msk u r =
     (let new_size = (nat (int (width img) * u), nat (int (height img) * u));
          img1 = resize_rgb lib img new_size;
          mask1 = resize_l lib msk new_size;
          mask2 = gaussian_blur lib r mask1;
          img_size3 = (nat (int (width img1) div u), nat (int (height img1) div u));
          mask_size3 = (nat (int (width mask2) div u), nat (int (height mask2) div u))
      in ((resize_rgb lib img1 img_size3, resize_l lib mask2 mask_size3),
          [Resize_RGB img new_size, Resize_L msk new_size, Filter_GaussianBlur r mask1,
           Resize_RGB img1 img_size3, Resize_L mask2 mask_size3]))"
  using assms by (simp add: smooth_alpha_def Let_def)

lemma smooth_alpha_sizes:
  assumes ok: "imaging_ok lib"
  shows "img_size (fst (fst (smooth_alpha lib img msk u r))) = img_size img"
    and "img_size (snd (fst (smooth_alpha lib img msk u r))) = (if 1 < u then img_size img else img_size msk)"
proof -
  have rs: "\<And>im sz. width (resize_rgb lib im sz) = fst sz \<and> height (resize_rgb lib im sz) = snd sz"
    and ls: "\<And>im sz. width (resize_l lib im sz) = fst sz \<and> height (resize_l lib im sz) = snd sz"
    and bs: "\<And>r im. width (gaussian_blur lib r im) = width im \<and> height (gaussian_blur lib r im) = height im"
    using ok by (auto simp: imaging_ok_def img_size_def prod_eq_iff)
  show "img_size (fst (fst (smooth_alpha lib img msk u r))) = img_size img"
  proof (cases "1 < u")
    case True
    then show ?thesis
      by (simp add: smooth_alpha_upscaled Let_def img_size_def rs)
  next
    case False
    then show ?thesis by (simp add: smooth_alpha_native)
  qed
  show "img_size (snd (fst (smooth_alpha lib img msk u r))) = (if 1 < u then img_size img else img_size msk)"
  proof (cases "1 < u")
    case True
    then show ?thesis
      by (simp add: smooth_alpha_upscaled Let_def img_size_def ls bs)
  next
    case False
    then show ?thesis by (simp add: smooth_alpha_native img_size_def bs)
  qed
qed

text \<open>
  Claim C4. For an image and a mask of size \<open>w \<times> h\<close> and every upscale factor \<open>u \<ge> 1\<close>, the
  image and the mask \<^verbatim>\<open>smooth_alpha\<close> returns both have size \<open>w \<times> h\<close>, with any library whose
  resize returns the requested size and whose blur keeps the size.
\<close>

theorem smoother_round_trip_size:
  assumes "imaging_ok lib" and "1 \<le> u" and "img_size img = (w, h)" and "img_size msk = (w, h)"
  shows "img_size (fst (fst (smooth_alpha lib img msk u r))) = (w, h) \<and>
         img_size (snd (fst (smooth_alpha lib img msk u r))) = (w, h)"
  using smooth_alpha_sizes[OF assms(1), of img msk u r] assms(3,4) by simp

theorem smoother_round_trip_size_witness:
  "imaging_ok demo_imaging \<and> (1::int) \<le> 2 \<and> img_size demo_rgb = (2, 2) \<and> img_size demo_mask = (2, 2) \<and>
   img_size (fst (fst (smooth_alpha demo_imaging demo_rgb demo_mask 2 2))) = (2, 2) \<and>
   img_size (snd (fst (smooth_alpha demo_imaging demo_rgb demo_mask 2 2))) = (2, 2)"
proof -
  have u: "(1::int) \<le> 2" by simp
  have i: "img_size demo_rgb = (2, 2)" by (simp add: img_size_def demo_rgb_def)
  have m: "img_size demo_mask = (2, 2)" by (simp add: img_size_def demo_mask_def)
  show ?thesis
    using imaging_ok_demo u i m smoother_round_trip_size[OF imaging_ok_demo u i m, of 2] by simp
qed

text \<open>
  Claim C5. The mask has the size of the image at every stage: \<^verbatim>\<open>make_mask\<close> returns a mask
  of the size of its input image, and for every upscale factor \<open>u \<ge> 1\<close> and blur radius
  \<open>r \<ge> 0\<close> \<^verbatim>\<open>smooth_alpha\<close>, given a mask of the size of the image, returns an image and a
  mask of equal size.
\<close>

theorem mask_size_follows_image:
  "(wf_image img \<longrightarrow> (\<exists>m. make_mask img tol = Some m \<and> img_size m = img_size img)) \<and>
   (imaging_ok lib \<and> 1 \<le> u \<and> 0 \<le> r \<and> img_size msk = img_size im \<longrightarrow>
      img_size (snd (fst (smooth_alpha lib im msk u r))) =
      img_size (fst (fst (smooth_alpha lib im msk u r))))"
proof (intro conjI impI)
  assume "wf_image img"
  then show "\<exists>m. make_mask img tol = Some m \<and> img_size m = img_size img"
    by (simp add: make_mask_closed_form img_size_def)
next
  assume a: "imaging_ok lib \<and> 1 \<le> u \<and> 0 \<le> r \<and> img_size msk = img_size im"
  then show "img_size (snd (fst (smooth_alpha lib im msk u r))) =
      img_size (fst (fst (smooth_alpha lib im msk u r)))"
    using smooth_alpha_sizes[of lib im msk u r] by simp
qed

theorem mask_size_follows_image_witness:
  "wf_image demo_img \<and> imaging_ok demo_imaging \<and> (1::int) \<le> 2 \<and> (0::real) \<le> 2 \<and>
   img_size demo_mask = img_size demo_rgb \<and>
   (\<exists>m. make_mask demo_img 80 = Some m \<and> img_size m = img_size demo_img) \<and>
   img_size (snd (fst (smooth_alpha demo_imaging demo_rgb demo_mask 2 2))) =
   img_size (fst (fst (smooth_alpha demo_imaging demo_rgb demo_mask 2 2)))"
proof -
  have u: "(1::int) \<le> 2" and r: "(0::real) \<le> 2" by simp_all
  have s: "img_size demo_mask = img_size demo_rgb"
    by (simp add: img_size_def demo_mask_def demo_rgb_def)
  show ?thesis
    using wf_demo_img imaging_ok_demo u r s
      mask_size_follows_image[of demo_img 80 demo_imaging 2 2 demo_mask demo_rgb]
    by blast
qed

text \<open>
  Claim C2, as stated, fails: with upscale 1 and blur radius 0 the Smoother still calls the
  blur, once, on the mask.
\<close>

theorem smoother_passthrough_counterexample:
  "snd (smooth_alpha demo_imaging demo_rgb demo_mask 1 0) = [Filter_GaussianBlur 0 demo_mask] \<and>
   \<not> (fst (smooth_alpha demo_imaging demo_rgb demo_mask 1 0) = (demo_rgb, demo_mask) \<and>
      snd (smooth_alpha demo_imaging demo_rgb demo_mask 1 0) = [])"
  by (simp add: smooth_alpha_def)

text \<open>
  Claim C2, amended. With upscale 1 and blur radius 0, \<^verbatim>\<open>smooth_alpha\<close> makes no resize call
  and exactly one blur call, on the mask with radius 0; it returns the image it was given
  and the result of that blur call, which is the mask it was given whenever a blur of
  radius 0 returns its input.
\<close>

theorem smoother_passthrough:
  "smooth_alpha lib img msk 1 0 = ((img, gaussian_blur lib 0 msk), [Filter_GaussianBlur 0 msk]) \<and>
   (blur0_copies lib \<longrightarrow> fst (smooth_alpha lib img msk 1 0) = (img, msk))"
  by (simp add: smooth_alpha_def blur0_copies_def)

theorem smoother_passthrough_witness:
  "blur0_copies demo_imaging \<and>
   smooth_alpha demo_imaging demo_rgb demo_mask 1 0 =
     ((demo_rgb, gaussian_blur demo_imaging 0 demo_mask), [Filter_GaussianBlur 0 demo_mask]) \<and>
   fst (smooth_alpha demo_imaging demo_rgb demo_mask 1 0) = (demo_rgb, demo_mask)"
  using blur0_copies_demo smoother_passthrough[of demo_imaging demo_rgb demo_mask] by blast

text \<open>
  Claim C7. The Smoother never blurs the colour image: the image it returns is the same
  whatever the blur function and the blur radius are, the only blur call it makes is on
  the mask (resized first when the upscale factor exceeds 1), and with upscale factor 1
  the image returned is the image given, for every blur radius.
\<close>

theorem smoother_blurs_mask_only:
  "fst (fst (smooth_alpha (lib\<lparr>gaussian_blur := b\<rparr>) img msk u r')) =
     fst (fst (smooth_alpha lib img msk u r)) \<and>
   filter is_blur_call (snd (smooth_alpha lib img msk u r)) =
     [Filter_GaussianBlur r
        (if 1 < u then resize_l lib msk (nat (int (width img) * u), nat (int (height img) * u))
         else msk)] \<and>
   fst (fst (smooth_alpha lib img msk 1 r)) = img"
  by (simp add: smooth_alpha_def Let_def)

section \<open>The pipeline\<close>

lemma map2_same: "map2 f (map g xs) (map h xs) = map (\<lambda>x. f (g x) (h x)) xs"
  by (induction xs) simp_all

lemma map2_replicate: "map2 f (replicate (length xs) c) xs = map (f c) xs"
  by (induction xs) simp_all

lemma mask_value_color:
  "color_of p = color_of q \<Longrightarrow> mask_value t p = mask_value t q"
  by (auto simp: color_of_def mask_value_def is_background_pixel_def split: prod.splits)

lemma map_mask_value_color:
  "map color_of ps = map color_of qs \<Longrightarrow> map (mask_value t) ps = map (mask_value t) qs"
proof (induction ps arbitrary: qs)
  case Nil
  then show ?case by simp
next
  case (Cons p ps)
  then obtain q qs' where q: "qs = q # qs'" by (cases qs) auto
  with Cons show ?case using mask_value_color[of p q t] by simp
qed

lemma convert_RGB_color: "convert_RGB img = \<lparr>width = width img, height = height img, pixels = map color_of (pixels img)\<rparr>"
proof -
  have "(\<lambda>(r, g, b, a). (r, g, b)) = color_of" by (auto simp: color_of_def fun_eq_iff)
  then show ?thesis by (simp add: convert_RGB_def)
qed

lemma putalpha_mask:
  "putalpha (convert_RGB img) \<lparr>width = width img, height = height img, pixels = map (mask_value t) (pixels img)\<rparr>
   = Some \<lparr>width = width img, height = height img,
           pixels = map (\<lambda>p. with_alpha p (mask_value t p)) (pixels img)\<rparr>"
proof -
  have "(\<lambda>x. (case case x of (r, g, b, a) \<Rightarrow> (r, g, b) of (r, g, b) \<Rightarrow> \<lambda>a. (r, g, b, a)) (mask_value t x))
      = (\<lambda>p. with_alpha p (mask_value t p))"
    by (auto simp: fun_eq_iff with_alpha_def)
  then show ?thesis
    by (simp add: putalpha_def convert_RGB_def img_size_def map2_same)
qed

lemma main_native:
  assumes wf: "wf_image img" and u: "\<not> 1 < upscale a"
    and b: "\<And>m. gaussian_blur lib (blur a) m = m"
    and bg: "bg a = Some s" "s \<noteq> []" "getcolor lib s = Some c"
  shows "main lib img a =
     Some \<lparr>width = width img, height = height img,
           pixels = map (\<lambda>p. over_pixel c (with_alpha p (mask_value (tolerance a) p))) (pixels img)\<rparr>"
proof -
  have len: "width img * height img = length (pixels img)" using wf by (simp add: wf_image_def)
  have "map2 over_pixel (replicate (length (pixels img)) c) (map (\<lambda>p. with_alpha p (mask_value (tolerance a) p)) (pixels img))
        = map (\<lambda>p. over_pixel c (with_alpha p (mask_value (tolerance a) p))) (pixels img)"
    using map2_replicate[of over_pixel "map (\<lambda>p. with_alpha p (mask_value (tolerance a) p)) (pixels img)" c]
    by (simp add: comp_def)
  then show ?thesis
    using u bg len
    by (simp add: main_def make_mask_closed_form[OF wf] smooth_alpha_native b putalpha_mask
        alpha_composite_def Image_new_def img_size_def)
qed

lemma over_channel_transparent: "over_channel s d 0 = d"
  by (simp add: over_channel_def)

lemma over_channel_opaque: "over_channel s d 255 = s"
  by (simp add: over_channel_def)


lemma composite_magenta:
  assumes "color_of p = (255, 0, 255)"
  shows "over_pixel (255, 255, 255, 255) (with_alpha p (mask_value 10 p)) = (255, 255, 255, 255)"
proof -
  obtain a where p: "p = (255, 0, 255, a)"
    using assms by (cases p) (auto simp: color_of_def)
  have "mask_value 10 p = 0"
    by (simp add: p mask_value_def is_background_pixel_def MAGENTA_def)
  then show ?thesis
    by (simp add: p with_alpha_def over_pixel_def over_channel_transparent)
qed

lemma composite_red:
  assumes "color_of p = (255, 0, 0)"
  shows "over_pixel (255, 255, 255, 255) (with_alpha p (mask_value 10 p)) = (255, 0, 0, 255)"
proof -
  obtain a where p: "p = (255, 0, 0, a)"
    using assms by (cases p) (auto simp: color_of_def)
  have "mask_value 10 p = 255"
    by (simp add: p mask_value_def is_background_pixel_def MAGENTA_def)
  then show ?thesis
    by (simp add: p with_alpha_def over_pixel_def over_channel_opaque)
qed

lemma wf_half_img: "wf_image half_img"
  by (simp add: wf_image_def half_img_def)

lemma wf_demo_img': "wf_image demo_img'"
  by (simp add: wf_image_def demo_img'_def)

text \<open>
  Claim C6. On a 4 by 4 image whose pixels are each magenta (255, 0, 255) or pure red
  (255, 0, 0), in any arrangement and in particular half and half, the pipeline with
  tolerance 10, upscale 1, blur 0 and background \<^verbatim>\<open>"#ffffff"\<close> returns a 4 by 4 buffer that is
  opaque white (255, 255, 255) where the image is magenta and opaque red (255, 0, 0) where
  it is red. The library parses \<^verbatim>\<open>"#ffffff"\<close> as opaque white and its blur of radius 0
  returns its input.
\<close>

theorem end_to_end_magenta_red:
  assumes "blur0_copies lib" and "getcolor lib ''#ffffff'' = Some (255, 255, 255, 255)"
    and "wf_image img" and "img_size img = (4, 4)"
    and "list_all (\<lambda>p. color_of p = (255, 0, 255) \<or> color_of p = (255, 0, 0)) (pixels img)"
  shows "\<exists>out. main lib img \<lparr>tolerance = 10, upscale = 1, blur = 0, bg = Some ''#ffffff''\<rparr> = Some out \<and>
           img_size out = (4, 4) \<and>
           (\<forall>x y. x < 4 \<and> y < 4 \<longrightarrow>
              (\<exists>p. getpixel img (x, y) = Some p \<and>
                 getpixel out (x, y) =
                   Some (if color_of p = (255, 0, 255) then (255, 255, 255, 255)
                         else (255, 0, 0, 255))))"
proof -
  let ?a = "\<lparr>tolerance = 10, upscale = 1, blur = 0, bg = Some ''#ffffff''\<rparr>"
  let ?F = "\<lambda>p. over_pixel (255, 255, 255, 255) (with_alpha p (mask_value 10 p))"
  let ?out = "\<lparr>width = width img, height = height img, pixels = map ?F (pixels img)\<rparr>"
  have wh: "width img = 4" "height img = 4" using assms(4) by (simp_all add: img_size_def)
  have len: "length (pixels img) = 16" using assms(3) wh by (simp add: wf_image_def)
  have run: "main lib img ?a = Some ?out"
    using main_native[OF assms(3), of ?a lib "''#ffffff''" "(255, 255, 255, 255)"] assms(1,2)
    by (simp add: blur0_copies_def)
  have cell: "\<exists>p. getpixel img (x, y) = Some p \<and>
                 getpixel ?out (x, y) =
                   Some (if color_of p = (255, 0, 255) then (255, 255, 255, 255)
                         else (255, 0, 0, 255))"
    if xy: "x < 4" "y < 4" for x y
  proof -
    let ?k = "y * width img + x"
    have k: "?k < length (pixels img)"
      using cell_in_buffer[of x 4 y 4] xy wh len by simp
    have col: "color_of (pixels img ! ?k) = (255, 0, 255) \<or> color_of (pixels img ! ?k) = (255, 0, 0)"
      using assms(5) k by (simp add: list_all_length)
    have "?F (pixels img ! ?k) =
        (if color_of (pixels img ! ?k) = (255, 0, 255) then (255, 255, 255, 255) else (255, 0, 0, 255))"
      using col composite_magenta[of "pixels img ! ?k"] composite_red[of "pixels img ! ?k"] by auto
    then show ?thesis using xy wh k by (simp add: getpixel_def)
  qed
  have "img_size ?out = (4, 4)" using wh by (simp add: img_size_def)
  with run cell show ?thesis by blast
qed

theorem end_to_end_magenta_red_witness:
  "blur0_copies demo_imaging \<and> getcolor demo_imaging ''#ffffff'' = Some (255, 255, 255, 255) \<and>
   wf_image half_img \<and> img_size half_img = (4, 4) \<and>
   list_all (\<lambda>p. color_of p = (255, 0, 255) \<or> color_of p = (255, 0, 0)) (pixels half_img) \<and>
   (\<exists>out. main demo_imaging half_img \<lparr>tolerance = 10, upscale = 1, blur = 0, bg = Some ''#ffffff''\<rparr> = Some out \<and>
           img_size out = (4, 4) \<and>
           (\<forall>x y. x < 4 \<and> y < 4 \<longrightarrow>
              (\<exists>p. getpixel half_img (x, y) = Some p \<and>
                 getpixel out (x, y) =
                   Some (if color_of p = (255, 0, 255) then (255, 255, 255, 255)
                         else (255, 0, 0, 255)))))"
proof -
  have c: "getcolor demo_imaging ''#ffffff'' = Some (255, 255, 255, 255)"
    by (simp add: demo_imaging_def)
  have s: "img_size half_img = (4, 4)" by (simp add: img_size_def half_img_def)
  have l: "list_all (\<lambda>p. color_of p = (255, 0, 255) \<or> color_of p = (255, 0, 0)) (pixels half_img)"
    by (simp add: half_img_def color_of_def)
  show ?thesis
    using blur0_copies_demo c wf_half_img s l
      end_to_end_magenta_red[OF blur0_copies_demo c wf_half_img s l]
    by blast
qed

text \<open>The same run, evaluated on the image that is magenta on the left and red on the right.\<close>

lemma half_img_run:
  "main demo_imaging half_img \<lparr>tolerance = 10, upscale = 1, blur = 0, bg = Some ''#ffffff''\<rparr> =
   Some \<lparr>width = 4, height = 4,
       pixels = [(255, 255, 255, 255), (255, 255, 255, 255), (255, 0, 0, 255), (255, 0, 0, 255),
                 (255, 255, 255, 255), (255, 255, 255, 255), (255, 0, 0, 255), (255, 0, 0, 255),
                 (255, 255, 255, 255), (255, 255, 255, 255), (255, 0, 0, 255), (255, 0, 0, 255),
                 (255, 255, 255, 255), (255, 255, 255, 255), (255, 0, 0, 255), (255, 0, 0, 255)]\<rparr>"
  by code_simp

text \<open>
  Claim C10. The opacity channel of the input never reaches the output: two well-formed
  RGBA images of the same size with the same colour channels at every pixel give the same
  result of the pipeline, whatever their opacities, for every library and every
  configuration.
\<close>

theorem opacity_never_read:
  assumes "wf_image img1" and "wf_image img2"
    and "img_size img1 = img_size img2"
    and "map color_of (pixels img1) = map color_of (pixels img2)"
  shows "main lib img1 a = main lib img2 a"
proof -
  have sz: "width img1 = width img2" "height img1 = height img2"
    using assms(3) by (simp_all add: img_size_def)
  have m: "make_mask img1 (tolerance a) = make_mask img2 (tolerance a)"
    using sz map_mask_value_color[OF assms(4)]
    by (simp add: make_mask_closed_form[OF assms(1)] make_mask_closed_form[OF assms(2)])
  have c: "convert_RGB img1 = convert_RGB img2"
    using sz assms(4) by (simp add: convert_RGB_color)
  show ?thesis unfolding main_def m c by (rule refl)
qed

theorem opacity_never_read_witness:
  "wf_image demo_img \<and> wf_image demo_img' \<and> img_size demo_img = img_size demo_img' \<and>
   map color_of (pixels demo_img) = map color_of (pixels demo_img') \<and>
   pixels demo_img \<noteq> pixels demo_img' \<and>
   main demo_imaging demo_img \<lparr>tolerance = 80, upscale = 2, blur = 2, bg = Some ''#ffffff''\<rparr> =
   main demo_imaging demo_img' \<lparr>tolerance = 80, upscale = 2, blur = 2, bg = Some ''#ffffff''\<rparr>"
proof -
  have s: "img_size demo_img = img_size demo_img'"
    by (simp add: img_size_def demo_img_def demo_img'_def)
  have c: "map color_of (pixels demo_img) = map color_of (pixels demo_img')"
    by (simp add: demo_img_def demo_img'_def color_of_def)
  have d: "pixels demo_img \<noteq> pixels demo_img'"
    by (simp add: demo_img_def demo_img'_def)
  show ?thesis
    using wf_demo_img wf_demo_img' s c d
      opacity_never_read[OF wf_demo_img wf_demo_img' s c, of demo_imaging]
    by blast
qed

text \<open>The run of that instance does return a buffer.\<close>

lemma demo_run: "main demo_imaging demo_img \<lparr>tolerance = 80, upscale = 2, blur = 2, bg = Some ''#ffffff''\<rparr> \<noteq> None"
  by code_simp

end
